theory Spec2Isabelle
  imports Complex_Main
begin

section \<open>JavaScript values used by the place-verification and routing code\<close>

text \<open>
  Strings are lists of 8-bit characters. For ASCII text this is what the JavaScript
  functions below see (\<open>length\<close>, \<open>charAt\<close>, \<open>includes\<close>, \<open>split\<close> and
  \<open>toLowerCase\<close> work per character); text outside ASCII is read as its bytes, and
  \<open>toLowerCase\<close> changes the letters A to Z only.

  Numbers are exact rationals, extended with the three non-finite values a JavaScript
  computation can produce. Rounding of doubles is not modelled.
\<close>

datatype js_number = Num rat | NaN | PosInf | NegInf

fun js_add :: "js_number \<Rightarrow> js_number \<Rightarrow> js_number" where
  "js_add (Num a) (Num b) = Num (a + b)"
| "js_add NaN _ = NaN"
| "js_add _ NaN = NaN"
| "js_add PosInf NegInf = NaN"
| "js_add NegInf PosInf = NaN"
| "js_add PosInf _ = PosInf"
| "js_add NegInf _ = NegInf"
| "js_add _ PosInf = PosInf"
| "js_add _ NegInf = NegInf"

fun js_neg :: "js_number \<Rightarrow> js_number" where
  "js_neg (Num a) = Num (- a)"
| "js_neg NaN = NaN"
| "js_neg PosInf = NegInf"
| "js_neg NegInf = PosInf"

definition js_sub :: "js_number \<Rightarrow> js_number \<Rightarrow> js_number" where
  "js_sub a b = js_add a (js_neg b)"

fun js_sign :: "js_number \<Rightarrow> int" where
  "js_sign (Num a) = (if a < 0 then - 1 else if a = 0 then 0 else 1)"
| "js_sign PosInf = 1"
| "js_sign NegInf = - 1"
| "js_sign NaN = 0"

fun js_mul :: "js_number \<Rightarrow> js_number \<Rightarrow> js_number" where
  "js_mul (Num a) (Num b) = Num (a * b)"
| "js_mul NaN _ = NaN"
| "js_mul _ NaN = NaN"
| "js_mul a b =
     (if js_sign a * js_sign b = 0 then NaN
      else if js_sign a * js_sign b > 0 then PosInf else NegInf)"

fun js_div :: "js_number \<Rightarrow> js_number \<Rightarrow> js_number" where
  "js_div (Num a) (Num b) =
     (if b \<noteq> 0 then Num (a / b)
      else if a = 0 then NaN
      else if a > 0 then PosInf else NegInf)"
| "js_div NaN _ = NaN"
| "js_div _ NaN = NaN"
| "js_div (Num a) _ = Num 0"
| "js_div a (Num b) =
     (if js_sign a * (if b < 0 then - 1 else 1) > 0 then PosInf else NegInf)"
| "js_div _ _ = NaN"

text \<open>The comparison \<open>a > b\<close>: false as soon as one side is \<open>NaN\<close>.\<close>

fun js_gt :: "js_number \<Rightarrow> js_number \<Rightarrow> bool" where
  "js_gt (Num a) (Num b) = (a > b)"
| "js_gt NaN _ = False"
| "js_gt _ NaN = False"
| "js_gt PosInf b = (b \<noteq> PosInf)"
| "js_gt NegInf _ = False"
| "js_gt _ NegInf = True"
| "js_gt _ PosInf = False"

text \<open>\<open>Math.min(a, b)\<close>: \<open>NaN\<close> as soon as one argument is.\<close>

fun js_min :: "js_number \<Rightarrow> js_number \<Rightarrow> js_number" where
  "js_min NaN _ = NaN"
| "js_min _ NaN = NaN"
| "js_min a b = (if js_gt a b then b else a)"

definition of_count :: "nat \<Rightarrow> js_number" where
  "of_count n = Num (of_nat n)"

subsection \<open>Strings\<close>

text \<open>\<open>s.charAt(i)\<close>: the one-character string at \<open>i\<close>, the empty string out of range.\<close>

definition charAt :: "string \<Rightarrow> nat \<Rightarrow> string" where
  "charAt s i = (if i < length s then [s ! i] else [])"

definition upper_letters :: string where
  "upper_letters = ''ABCDEFGHIJKLMNOPQRSTUVWXYZ''"

definition lower_letters :: string where
  "lower_letters = ''abcdefghijklmnopqrstuvwxyz''"

definition lower_char :: "char \<Rightarrow> char" where
  "lower_char c = (case map_of (zip upper_letters lower_letters) c of None \<Rightarrow> c | Some d \<Rightarrow> d)"

definition toLowerCase :: "string \<Rightarrow> string" where
  "toLowerCase s = map lower_char s"

text \<open>\<open>s.includes(t)\<close>: \<open>t\<close> occurs in \<open>s\<close> as a contiguous run, tried at each start.\<close>

fun starts_with :: "string \<Rightarrow> string \<Rightarrow> bool" where
  "starts_with s [] = True"
| "starts_with [] (c # t) = False"
| "starts_with (d # s) (c # t) = (d = c \<and> starts_with s t)"

fun js_includes :: "string \<Rightarrow> string \<Rightarrow> bool" where
  "js_includes [] t = (t = [])"
| "js_includes (c # s) t = (starts_with (c # s) t \<or> js_includes s t)"

text \<open>
  \<open>s.split(/[\s\(\)]+/)\<close>: the pieces of \<open>s\<close> between maximal runs of white space and
  parentheses. A separator at either end leaves an empty piece there, and the empty
  string splits into one empty piece. White space is the ASCII white space (space, tab,
  line feed, vertical tab, form feed, carriage return); the white space characters
  outside ASCII are not modelled.
\<close>

definition is_separator :: "char \<Rightarrow> bool" where
  "is_separator c = (c \<in> set [CHR '' '', CHR 0x09, CHR 0x0A, CHR 0x0B, CHR 0x0C, CHR 0x0D,
                               CHR ''('', CHR '')''])"

function split_words :: "string \<Rightarrow> string \<Rightarrow> string list" where
  "split_words cur [] = [cur]"
| "split_words cur (c # s) =
     (if is_separator c then cur # split_words [] (dropWhile is_separator s)
      else split_words (cur @ [c]) s)"
  by pat_completeness auto
termination
  by (relation "measure (\<lambda>(cur, s). length s)")
     (auto simp: length_dropWhile_le less_Suc_eq_le)

definition name_tokens :: "string \<Rightarrow> string list" where
  "name_tokens s = filter (\<lambda>w. length w > 2) (split_words [] s)"

section \<open>String similarity (\<open>calculateStringSimilarity\<close>)\<close>

text \<open>
  The matrix of the source is an array of rows. It is modelled as a finite map from
  (row, column) to the stored count: a cell that was never written reads as
  \<open>undefined\<close> (\<open>None\<close>), and arithmetic on \<open>undefined\<close> gives \<open>NaN\<close>, which is
  \<open>None\<close> as well. The first loop creates every row, so no row is missing when a
  cell of it is read or written.
\<close>

type_synonym matrix = "nat \<times> nat \<Rightarrow> nat option"

definition plus_one :: "nat option \<Rightarrow> nat option" where
  "plus_one v = map_option Suc v"

definition min3 :: "nat option \<Rightarrow> nat option \<Rightarrow> nat option \<Rightarrow> nat option" where
  "min3 a b c =
     (case (a, b, c) of
        (Some x, Some y, Some z) \<Rightarrow> Some (min x (min y z))
      | _ \<Rightarrow> None)"

definition init_rows :: "nat \<Rightarrow> matrix" where
  "init_rows n2 = fold (\<lambda>i m. m((i, 0) := Some i)) [0..<Suc n2] (\<lambda>_. None)"

definition init_first_row :: "nat \<Rightarrow> matrix \<Rightarrow> matrix" where
  "init_first_row n1 m0 = fold (\<lambda>j m. m((0, j) := Some j)) [0..<Suc n1] m0"

definition fill_cell :: "string \<Rightarrow> string \<Rightarrow> nat \<Rightarrow> nat \<Rightarrow> matrix \<Rightarrow> matrix" where
  "fill_cell str1 str2 i j m =
     (if charAt str2 (i - 1) = charAt str1 (j - 1)
      then m((i, j) := m (i - 1, j - 1))
      else m((i, j) := min3 (plus_one (m (i - 1, j - 1)))
                            (plus_one (m (i, j - 1)))
                            (plus_one (m (i - 1, j)))))"

definition fill_row :: "string \<Rightarrow> string \<Rightarrow> nat \<Rightarrow> matrix \<Rightarrow> matrix" where
  "fill_row str1 str2 i m0 = fold (fill_cell str1 str2 i) [1..<Suc (length str1)] m0"

definition fill_matrix :: "string \<Rightarrow> string \<Rightarrow> matrix" where
  "fill_matrix str1 str2 =
     fold (fill_row str1 str2) [1..<Suc (length str2)]
       (init_first_row (length str1) (init_rows (length str2)))"

definition calculateStringSimilarity :: "string \<Rightarrow> string \<Rightarrow> js_number" where
  "calculateStringSimilarity str1 str2 =
     (if str1 = str2 then Num 1
      else if length str1 = 0 \<or> length str2 = 0 then Num 0
      else
        (let m = fill_matrix str1 str2;
             maxLength = max (length str1) (length str2);
             distance = (case m (length str2, length str1) of
                           None \<Rightarrow> NaN | Some d \<Rightarrow> of_count d)
         in js_sub (Num 1) (js_div distance (of_count maxLength))))"

text \<open>
  The edit distance of the specification: the classic recurrence over prefix lengths,
  where a deletion, an insertion and a substitution cost 1 each and an equal pair of
  characters costs nothing. \<open>edit_prefix a b i j\<close> is the distance between the first
  \<open>i\<close> characters of \<open>a\<close> and the first \<open>j\<close> characters of \<open>b\<close>.
\<close>

fun edit_prefix :: "string \<Rightarrow> string \<Rightarrow> nat \<Rightarrow> nat \<Rightarrow> nat" where
  "edit_prefix a b 0 j = j"
| "edit_prefix a b (Suc i) 0 = Suc i"
| "edit_prefix a b (Suc i) (Suc j) =
     min (edit_prefix a b i (Suc j) + 1)
       (min (edit_prefix a b (Suc i) j + 1)
            (edit_prefix a b i j + (if a ! i = b ! j then 0 else 1)))"

definition editDistance :: "string \<Rightarrow> string \<Rightarrow> nat" where
  "editDistance a b = edit_prefix a b (length a) (length b)"

text \<open>
  The loop invariant of the fill loops: every cell of a finished row, every cell of row
  \<open>i\<close> left of column \<open>j\<close>, and every cell of column 0 holds the edit distance of
  the two prefixes it stands for (rows count characters of \<open>str2\<close>, columns characters
  of \<open>str1\<close>).
\<close>

definition cells_done :: "string \<Rightarrow> string \<Rightarrow> nat \<Rightarrow> nat \<Rightarrow> matrix \<Rightarrow> bool" where
  "cells_done str1 str2 i j m \<longleftrightarrow>
     (\<forall>i' j'. i' \<le> length str2 \<and> j' \<le> length str1 \<and> (i' < i \<or> (i' = i \<and> j' < j) \<or> j' = 0)
        \<longrightarrow> m (i', j') = Some (edit_prefix str2 str1 i' j'))"


section \<open>Confidence scoring (\<open>calculateMatchConfidence\<close>)\<close>

text \<open>
  A mention is a place as the language model proposed it. The caller has checked that
  \<open>name\<close> and \<open>type\<close> are present, so both are strings here.
\<close>

record mention =
  name :: string
  place_type :: string
  description :: "string option"
  reasoning :: "string option"

text \<open>
  The \<open>displayName\<close> of a search candidate: absent, a plain string, or an object with
  an optional \<open>text\<close> field (the shape the search service documents). The scorer
  reads it with \<open>displayName?.text || displayName || ''\<close>, which provides for all
  three. The city is a string: the caller rejects a response without one.
\<close>

datatype display_name = NoDisplayName | DisplayString string | DisplayObject "string option"

type_synonym coords = "rat option \<times> rat option"

record api_place =
  api_id :: "string option"
  displayName :: display_name
  formattedAddress :: "string option"
  api_location :: "coords option"
  api_rating :: "rat option"
  api_userRatingCount :: "nat option"
  api_businessStatus :: "string option"
  api_types :: "string list option"
  api_photos :: "string list option"

datatype js_error = TypeError string | Error string

fun message_of :: "js_error \<Rightarrow> string" where
  "message_of (TypeError m) = m"
| "message_of (Error m) = m"

text \<open>
  \<open>(apiPlace.displayName?.text || apiPlace.displayName || '').toLowerCase()\<close>.
  A string has no \<open>text\<close>, so it is taken itself (the empty string is falsy and gives
  \<open>''\<close>); an object whose \<open>text\<close> is absent or empty is taken itself too, and has no
  \<open>toLowerCase\<close>: the call throws a \<open>TypeError\<close>.
\<close>

fun apiNameOf :: "display_name \<Rightarrow> js_error + string" where
  "apiNameOf NoDisplayName = Inr (toLowerCase [])"
| "apiNameOf (DisplayString s) = Inr (toLowerCase s)"
| "apiNameOf (DisplayObject (Some t)) =
     (if t \<noteq> [] then Inr (toLowerCase t)
      else Inl (TypeError ''toLowerCase is not a function''))"
| "apiNameOf (DisplayObject None) = Inl (TypeError ''toLowerCase is not a function'')"

text \<open>The loop over \<open>nameWords\<close> that counts the words with a matching candidate word.\<close>

definition word_matches :: "string list \<Rightarrow> string list \<Rightarrow> nat" where
  "word_matches nameWords apiWords =
     fold (\<lambda>word wordMatches.
             if list_ex (\<lambda>apiWord.
                    js_includes word apiWord \<or> js_includes apiWord word \<or>
                    js_gt (calculateStringSimilarity word apiWord) (Num (8 / 10)))
                  apiWords
             then wordMatches + 1 else wordMatches)
       nameWords 0"

text \<open>
  The name block (source lines 154 to 193), as the update of \<open>confidence\<close> it performs.
  The word bonus stands inside the \<open>else\<close> of the exact-match test and after the
  containment test, as in the source.
\<close>

definition name_block :: "js_number \<Rightarrow> string \<Rightarrow> string \<Rightarrow> js_number" where
  "name_block confidence originalName apiName =
     (if originalName = apiName then js_add confidence (Num (6 / 10))
      else
        (let containsMatch = (js_includes originalName apiName \<or> js_includes apiName originalName);
             confidence1 =
               (if containsMatch then js_add confidence (Num (5 / 10))
                else js_add confidence
                       (js_mul (calculateStringSimilarity originalName apiName) (Num (6 / 10))));
             nameWords = name_tokens originalName;
             apiWords = name_tokens apiName;
             wordMatches = word_matches nameWords apiWords
         in if length nameWords > 0
            then js_add confidence1
                   (js_mul (js_div (of_count wordMatches) (of_count (length nameWords)))
                      (Num (15 / 100)))
            else confidence1))"

definition address_block :: "js_number \<Rightarrow> string option \<Rightarrow> string \<Rightarrow> js_number" where
  "address_block confidence addr city =
     (let apiAddress = (case addr of None \<Rightarrow> [] | Some a \<Rightarrow> a);
          cityInAddress = js_includes (toLowerCase apiAddress) (toLowerCase city)
      in if cityInAddress then js_add confidence (Num (3 / 10))
         else
           (let countryMatch =
                  (js_includes (toLowerCase apiAddress) ''portugal'' \<or>
                   js_includes (toLowerCase apiAddress) ''lisboa'' \<or>
                   js_includes (toLowerCase apiAddress) ''lisbon'')
            in if countryMatch then js_add confidence (Num (15 / 100)) else confidence))"

definition status_block :: "js_number \<Rightarrow> string option \<Rightarrow> js_number" where
  "status_block confidence status =
     (if status = Some ''OPERATIONAL'' then js_add confidence (Num (5 / 100))
      else if status = Some ''CLOSED_TEMPORARILY'' then js_add confidence (Num (25 / 1000))
      else confidence)"

text \<open>
  \<open>apiPlace.rating && apiPlace.rating >= 4.0\<close>: an absent rating and the rating 0 are
  falsy; the same for the rating count.
\<close>

definition quality_block :: "js_number \<Rightarrow> rat option \<Rightarrow> nat option \<Rightarrow> js_number" where
  "quality_block confidence rating count =
     (let confidence1 =
            (case rating of
               Some r \<Rightarrow> if r \<noteq> 0 \<and> r \<ge> 4 then js_add confidence (Num (3 / 100)) else confidence
             | None \<Rightarrow> confidence)
      in case count of
           Some n \<Rightarrow> if n \<noteq> 0 \<and> n \<ge> 1000 then js_add confidence1 (Num (2 / 100)) else confidence1
         | None \<Rightarrow> confidence1)"

text \<open>The blocks after the name block (source lines 195 to 224), in their order.\<close>

definition other_signals :: "js_number \<Rightarrow> api_place \<Rightarrow> string \<Rightarrow> js_number" where
  "other_signals confidence apiPlace city =
     quality_block
       (status_block (address_block confidence (formattedAddress apiPlace) city)
          (api_businessStatus apiPlace))
       (api_rating apiPlace) (api_userRatingCount apiPlace)"

definition calculateMatchConfidence :: "mention \<Rightarrow> api_place \<Rightarrow> string \<Rightarrow> js_error + js_number" where
  "calculateMatchConfidence originalPlace apiPlace city =
     (let confidence = Num 0;
          originalName = toLowerCase (name originalPlace)
      in case apiNameOf (displayName apiPlace) of
           Inl e \<Rightarrow> Inl e
         | Inr apiName \<Rightarrow>
             Inr (js_min (other_signals (name_block confidence originalName apiName) apiPlace city)
                    (Num 1)))"

section \<open>Choosing the best candidate (\<open>findBestMatch\<close>)\<close>

text \<open>
  The place built for the winning candidate. \<open>displayName?.text || displayName\<close> is
  the text of an object that has one, and the display name itself otherwise.
\<close>

fun shown_name :: "display_name \<Rightarrow> display_name" where
  "shown_name (DisplayObject (Some t)) =
     (if t \<noteq> [] then DisplayString t else DisplayObject (Some t))"
| "shown_name d = d"

record verified_place =
  vp_id :: "string option"
  vp_name :: display_name
  vp_address :: "string option"
  vp_location :: coords
  vp_rating :: "rat option"
  vp_userRatingCount :: "nat option"
  vp_businessStatus :: "string option"
  vp_types :: "string list"
  vp_place_id :: "string option"
  vp_photos :: "string list"

definition place_of :: "api_place \<Rightarrow> verified_place" where
  "place_of apiPlace =
     \<lparr> vp_id = api_id apiPlace,
       vp_name = shown_name (displayName apiPlace),
       vp_address = formattedAddress apiPlace,
       vp_location = (case api_location apiPlace of None \<Rightarrow> (None, None) | Some l \<Rightarrow> l),
       vp_rating = api_rating apiPlace,
       vp_userRatingCount = api_userRatingCount apiPlace,
       vp_businessStatus = api_businessStatus apiPlace,
       vp_types = (case api_types apiPlace of None \<Rightarrow> [] | Some ts \<Rightarrow> ts),
       vp_place_id = api_id apiPlace,
       vp_photos = (case api_photos apiPlace of None \<Rightarrow> [] | Some ps \<Rightarrow> ps) \<rparr>"

record best_match =
  bm_place :: "verified_place option"
  bm_confidence :: js_number

text \<open>
  The loop over \<open>apiResults\<close>, with \<open>bestMatch\<close> as its state. An exception of the
  scorer leaves the loop and the function.
\<close>

fun best_match_loop :: "mention \<Rightarrow> string \<Rightarrow> api_place list \<Rightarrow> best_match \<Rightarrow> js_error + best_match" where
  "best_match_loop originalPlace city [] bestMatch = Inr bestMatch"
| "best_match_loop originalPlace city (apiPlace # rest) bestMatch =
     (case calculateMatchConfidence originalPlace apiPlace city of
        Inl e \<Rightarrow> Inl e
      | Inr confidence \<Rightarrow>
          best_match_loop originalPlace city rest
            (if js_gt confidence (bm_confidence bestMatch)
             then \<lparr> bm_place = Some (place_of apiPlace), bm_confidence = confidence \<rparr>
             else bestMatch))"

definition findBestMatch :: "mention \<Rightarrow> api_place list \<Rightarrow> string \<Rightarrow> js_error + best_match" where
  "findBestMatch originalPlace apiResults city =
     best_match_loop originalPlace city apiResults \<lparr> bm_place = None, bm_confidence = Num 0 \<rparr>"

section \<open>Verifying one mention (\<open>verifyPlace\<close>)\<close>

text \<open>
  What the search request of one mention came to: \<open>fetch\<close> threw, the response was
  not \<open>ok\<close> (with its status as printed, and its body text), reading the body threw, or
  the body was read and holds \<open>places\<close> (absent, or a list of candidates).
\<close>

datatype search_outcome =
    FetchRejected string
  | HttpFailure string string
  | BodyRejected string
  | HttpOk "api_place list option"

record verification =
  verified :: bool
  error :: "string option"
  originalPlace :: mention
  confidence :: js_number
  verifiedPlace :: "verified_place option"
  alternativeMatches :: "api_place list option"

definition failed_verification :: "mention \<Rightarrow> string \<Rightarrow> verification" where
  "failed_verification place msg =
     \<lparr> verified = False, error = Some msg, originalPlace = place, confidence = Num 0,
       verifiedPlace = None, alternativeMatches = None \<rparr>"

definition verifyPlace :: "mention \<Rightarrow> string \<Rightarrow> search_outcome \<Rightarrow> verification" where
  "verifyPlace place city outcome =
     (case outcome of
        FetchRejected msg \<Rightarrow> failed_verification place msg
      | HttpFailure status errorText \<Rightarrow>
          failed_verification place (''API Error: '' @ status @ '' - '' @ errorText)
      | BodyRejected msg \<Rightarrow> failed_verification place msg
      | HttpOk data_places \<Rightarrow>
          (case data_places of
             None \<Rightarrow> failed_verification place ''No matching places found''
           | Some [] \<Rightarrow> failed_verification place ''No matching places found''
           | Some (p # ps) \<Rightarrow>
               (case findBestMatch place (p # ps) city of
                  Inl e \<Rightarrow> failed_verification place (message_of e)
                | Inr bestMatch \<Rightarrow>
                    \<lparr> verified = js_gt (bm_confidence bestMatch) (Num (3 / 10)),
                      error = None,
                      originalPlace = place,
                      confidence = bm_confidence bestMatch,
                      verifiedPlace = bm_place bestMatch,
                      alternativeMatches = Some (take 3 (p # ps)) \<rparr>)))"

section \<open>Verifying a batch (\<open>verifyAllPlaces\<close>)\<close>

record route_response =
  rr_places :: "mention list option"
  rr_city :: string

record summary =
  totalPlaces :: nat
  verifiedPlaces :: nat
  verificationRate :: js_number
  unverifiedPlaces :: nat

text \<open>
  A stop of the route: the fields of an enhanced place that the routing code reads, and
  the name. An enhanced place extends it with the rest of what \<open>verifyAllPlaces\<close>
  writes.
\<close>

record stop =
  stop_name :: string
  address :: "string option"
  location :: "coords option"
  place_id :: "string option"

record verification_info =
  vi_verified :: bool
  vi_confidence :: js_number
  vi_error :: "string option"
  vi_verifiedData :: "verified_place option"
  vi_alternatives :: "api_place list option"

record enhanced_place = stop +
  ep_type :: string
  ep_description :: "string option"
  ep_reasoning :: "string option"
  ep_rating :: "rat option"
  ep_userRatingCount :: "nat option"
  ep_businessStatus :: "string option"
  ep_types :: "string list"
  ep_photos :: "string list"
  ep_verification :: verification_info

text \<open>\<open>x || null\<close> on an optional string, number or count: a falsy value becomes absent.\<close>

definition truthy_string :: "string option \<Rightarrow> string option" where
  "truthy_string x = (case x of Some s \<Rightarrow> if s \<noteq> [] then Some s else None | None \<Rightarrow> None)"

definition truthy_number :: "'a::zero option \<Rightarrow> 'a option" where
  "truthy_number x = (case x of Some n \<Rightarrow> if n \<noteq> 0 then Some n else None | None \<Rightarrow> None)"

definition enhance :: "verification \<Rightarrow> enhanced_place" where
  "enhance result =
     \<lparr> stop_name = name (originalPlace result),
       address =
         (case Option.bind (verifiedPlace result) (\<lambda>p. truthy_string (vp_address p)) of
            Some a \<Rightarrow> Some a | None \<Rightarrow> Some ''Address not found''),
       location = map_option vp_location (verifiedPlace result),
       place_id = Option.bind (verifiedPlace result) (\<lambda>p. truthy_string (vp_place_id p)),
       ep_type = place_type (originalPlace result),
       ep_description = description (originalPlace result),
       ep_reasoning = reasoning (originalPlace result),
       ep_rating = Option.bind (verifiedPlace result) (\<lambda>p. truthy_number (vp_rating p)),
       ep_userRatingCount =
         Option.bind (verifiedPlace result) (\<lambda>p. truthy_number (vp_userRatingCount p)),
       ep_businessStatus =
         Option.bind (verifiedPlace result) (\<lambda>p. truthy_string (vp_businessStatus p)),
       ep_types = (case verifiedPlace result of None \<Rightarrow> [] | Some p \<Rightarrow> vp_types p),
       ep_photos = (case verifiedPlace result of None \<Rightarrow> [] | Some p \<Rightarrow> vp_photos p),
       ep_verification =
         \<lparr> vi_verified = verified result,
           vi_confidence = confidence result,
           vi_error = error result,
           vi_verifiedData = verifiedPlace result,
           vi_alternatives = alternativeMatches result \<rparr> \<rparr>"

datatype batch_result =
    BatchFailure string
  | BatchSuccess "verification list" summary "enhanced_place list"

text \<open>
  \<open>fetch i\<close> is the outcome of the search request sent for the mention at index
  \<open>i\<close>. Every promise of \<open>verifyPlace\<close> resolves (its body is one \<open>try\<close> whose
  \<open>catch\<close> returns a result), so \<open>Promise.all\<close> resolves with the results in the order
  of the mentions, and the \<open>catch\<close> of \<open>verifyAllPlaces\<close> is never entered.
\<close>

definition summarize :: "verification list \<Rightarrow> summary" where
  "summarize verificationResults =
     (let verifiedCount = length (filter verified verificationResults);
          totalCount = length verificationResults
      in \<lparr> totalPlaces = totalCount,
           verifiedPlaces = verifiedCount,
           verificationRate = js_mul (js_div (of_count verifiedCount) (of_count totalCount)) (Num 100),
           unverifiedPlaces = totalCount - verifiedCount \<rparr>)"

definition verifyAllPlaces :: "route_response \<Rightarrow> (nat \<Rightarrow> search_outcome) \<Rightarrow> batch_result" where
  "verifyAllPlaces routeResponse fetch =
     (case rr_places routeResponse of
        None \<Rightarrow> BatchFailure ''Invalid route response format''
      | Some ps \<Rightarrow>
          (let verificationResults =
                 map (\<lambda>(i, place). verifyPlace place (rr_city routeResponse) (fetch i))
                   (enumerate 0 ps)
           in BatchSuccess verificationResults (summarize verificationResults)
                (map enhance verificationResults)))"

text \<open>The outcomes of a batch given as a list, one per mention.\<close>

definition outcomes_of :: "search_outcome list \<Rightarrow> nat \<Rightarrow> search_outcome" where
  "outcomes_of xs i = (if i < length xs then xs ! i else FetchRejected ''no response'')"

text \<open>A search failure in the sense of the failure policy: no candidate came back.\<close>

fun search_failed :: "search_outcome \<Rightarrow> bool" where
  "search_failed (HttpOk (Some (p # ps))) = False"
| "search_failed _ = True"

section \<open>Ordering the stops (\<open>optimizeRouteOrder\<close>)\<close>

text \<open>
  The functions of this section read three fields of a place (\<open>address\<close>,
  \<open>location\<close>, \<open>place_id\<close>), so they are stated for every extension of \<open>stop\<close>.
  \<open>place.place_id\<close> as a condition is true for a present, non-empty identifier.
\<close>

definition has_place_id :: "'a stop_scheme \<Rightarrow> bool" where
  "has_place_id p = (case place_id p of Some s \<Rightarrow> s \<noteq> [] | None \<Rightarrow> False)"

text \<open>\<open>xs[i]\<close> for an index taken from a response: \<open>undefined\<close> out of range.\<close>

definition js_nth :: "'a list \<Rightarrow> int \<Rightarrow> 'a option" where
  "js_nth xs i = (if 0 \<le> i \<and> nat i < length xs then Some (xs ! nat i) else None)"

text \<open>\<open>xs.slice(1, -1)\<close>: all but the first and the last element.\<close>

definition slice_inner :: "'a list \<Rightarrow> 'a list" where
  "slice_inner xs = butlast (tl xs)"

record route =
  optimizedIntermediateWaypointIndex :: "int list option"
  duration :: "string option"
  distanceMeters :: "nat option"

text \<open>
  What the request to the routing service came to: \<open>fetch\<close> threw, the response was
  not \<open>ok\<close> (status as printed, body text), reading the body threw, or the body was
  read and holds \<open>routes\<close> (absent, or a list).
\<close>

datatype routes_outcome =
    RoutesFetchRejected string
  | RoutesHttpFailure string string
  | RoutesBodyRejected string
  | RoutesOk "route list option"

text \<open>
  The result. \<open>opt_places\<close> lists the returned places; an entry is \<open>None\<close> where the
  source stores \<open>undefined\<close>, which only an index outside the intermediates produces.
  The statistics computed after the places (\<open>optimization\<close>, \<open>routeData\<close>) are not
  part of the model: they read \<open>duration\<close> and \<open>distanceMeters\<close> of the route, strings
  and numbers on which \<open>replace\<close>, \<open>parseInt\<close> and \<open>Math.round\<close> do not throw.
\<close>

record 'p optimization =
  opt_success :: bool
  opt_optimized :: bool
  opt_places :: "'p option list"
  opt_message :: "string option"
  opt_error :: "string option"

text \<open>The \<open>catch\<close> of \<open>optimizeRouteOrder\<close>: the places as they were passed in.\<close>

definition caught :: "'p list \<Rightarrow> string \<Rightarrow> 'p optimization" where
  "caught places msg =
     \<lparr> opt_success = True, opt_optimized = False, opt_places = map Some places,
       opt_message = Some ''Optimization failed, using original order'',
       opt_error = Some msg \<rparr>"

definition optimizeRouteOrder ::
  "'a stop_scheme list \<Rightarrow> string \<Rightarrow> routes_outcome \<Rightarrow> 'a stop_scheme optimization" where
  "optimizeRouteOrder places travelMode outcome =
     (if length places < 2
      then caught places ''At least 2 places are required for route optimization''
      else
        (let placesWithIds = filter has_place_id places
         in if length placesWithIds < 2
            then \<lparr> opt_success = True, opt_optimized = False, opt_places = map Some places,
                   opt_message = Some ''Insufficient place IDs for optimization'',
                   opt_error = None \<rparr>
            else if length placesWithIds = 2
            then \<lparr> opt_success = True, opt_optimized = False,
                   opt_places = map Some placesWithIds,
                   opt_message = Some ''Only 2 places, no optimization needed'',
                   opt_error = None \<rparr>
            else
              (let origin = placesWithIds ! 0;
                   destination = placesWithIds ! (length placesWithIds - 1);
                   intermediates = slice_inner placesWithIds
               in case outcome of
                    RoutesFetchRejected msg \<Rightarrow> caught places msg
                  | RoutesHttpFailure status errorText \<Rightarrow>
                      \<lparr> opt_success = True, opt_optimized = False,
                        opt_places = map Some placesWithIds,
                        opt_message = Some ''Optimization failed, using original order'',
                        opt_error = Some (''Routes API error: '' @ status @ '' - '' @ errorText) \<rparr>
                  | RoutesBodyRejected msg \<Rightarrow> caught places msg
                  | RoutesOk None \<Rightarrow>
                      \<lparr> opt_success = True, opt_optimized = False,
                        opt_places = map Some placesWithIds,
                        opt_message = Some ''Optimization failed, using original order'',
                        opt_error = Some ''No routes returned from API'' \<rparr>
                  | RoutesOk (Some []) \<Rightarrow>
                      \<lparr> opt_success = True, opt_optimized = False,
                        opt_places = map Some placesWithIds,
                        opt_message = Some ''Optimization failed, using original order'',
                        opt_error = Some ''No routes returned from API'' \<rparr>
                  | RoutesOk (Some (route # others)) \<Rightarrow>
                      (case optimizedIntermediateWaypointIndex route of
                         None \<Rightarrow>
                           \<lparr> opt_success = True, opt_optimized = False,
                             opt_places = map Some placesWithIds,
                             opt_message = Some ''No optimization performed by API'',
                             opt_error = None \<rparr>
                       | Some optimizedOrder \<Rightarrow>
                           (let reorderedIntermediates = map (js_nth intermediates) optimizedOrder;
                                optimizedPlaces =
                                  [Some origin] @ reorderedIntermediates @ [Some destination]
                            in \<lparr> opt_success = True, opt_optimized = True,
                                 opt_places = optimizedPlaces,
                                 opt_message = None, opt_error = None \<rparr>)))))"

text \<open>A permutation of the indices \<open>0, ..., k - 1\<close>, as the routing service returns it.\<close>

definition is_permutation :: "int list \<Rightarrow> nat \<Rightarrow> bool" where
  "is_permutation p k = (sort p = map int [0..<k])"

section \<open>The maps link (\<open>generateOptimizedMapsUrl\<close>, \<open>generateGoogleMapsUrl\<close>)\<close>






















section \<open>The signals of the scorer as rational numbers\<close>

text \<open>
  The quantities the statements below are written in. Each is read off the block of the
  scorer it belongs to; the verification proves that the block, run on JavaScript
  numbers, adds exactly this amount.
\<close>

definition similarity :: "string \<Rightarrow> string \<Rightarrow> rat" where
  "similarity a b =
     (if a = b then 1
      else if a = [] \<or> b = [] then 0
      else 1 - of_nat (editDistance a b) / of_nat (max (length a) (length b)))"

text \<open>The word bonus: \<open>wordMatches / nameWords.length * 0.15\<close>, when there is a word.\<close>

definition word_bonus :: "string \<Rightarrow> string \<Rightarrow> rat" where
  "word_bonus originalName apiName =
     (if name_tokens originalName = [] then 0
      else of_nat (word_matches (name_tokens originalName) (name_tokens apiName))
             / of_nat (length (name_tokens originalName)) * (15 / 100))"

definition name_score :: "string \<Rightarrow> string \<Rightarrow> rat" where
  "name_score a b =
     (if a = b then 6 / 10
      else (if js_includes a b \<or> js_includes b a then 5 / 10 else similarity a b * (6 / 10))
           + word_bonus a b)"

definition address_score :: "string option \<Rightarrow> string \<Rightarrow> rat" where
  "address_score addr cityName =
     (let a = toLowerCase (case addr of None \<Rightarrow> [] | Some x \<Rightarrow> x)
      in if js_includes a (toLowerCase cityName) then 3 / 10
         else if js_includes a ''portugal'' \<or> js_includes a ''lisboa'' \<or> js_includes a ''lisbon''
         then 15 / 100 else 0)"

definition status_score :: "string option \<Rightarrow> rat" where
  "status_score status =
     (if status = Some ''OPERATIONAL'' then 5 / 100
      else if status = Some ''CLOSED_TEMPORARILY'' then 25 / 1000 else 0)"

definition quality_score :: "rat option \<Rightarrow> nat option \<Rightarrow> rat" where
  "quality_score rating count =
     (case rating of Some r \<Rightarrow> if r \<ge> 4 then 3 / 100 else 0 | None \<Rightarrow> 0)
     + (case count of Some n \<Rightarrow> if n \<ge> 1000 then 2 / 100 else 0 | None \<Rightarrow> 0)"

definition other_score :: "api_place \<Rightarrow> string \<Rightarrow> rat" where
  "other_score apiPlace cityName =
     address_score (formattedAddress apiPlace) cityName
     + status_score (api_businessStatus apiPlace)
     + quality_score (api_rating apiPlace) (api_userRatingCount apiPlace)"

text \<open>What the scorer does on one candidate, as seen by the loop of \<open>findBestMatch\<close>.\<close>

definition scoring_throws :: "mention \<Rightarrow> string \<Rightarrow> api_place \<Rightarrow> bool" where
  "scoring_throws p cityName c =
     (case calculateMatchConfidence p c cityName of Inl e \<Rightarrow> True | Inr s \<Rightarrow> False)"

definition scores_above_zero :: "mention \<Rightarrow> string \<Rightarrow> api_place \<Rightarrow> bool" where
  "scores_above_zero p cityName c =
     (case calculateMatchConfidence p c cityName of Inl e \<Rightarrow> False | Inr s \<Rightarrow> js_gt s (Num 0))"

section \<open>Example inputs\<close>

definition louvre :: mention where
  "louvre = \<lparr> name = ''Louvre'', place_type = ''museum'', description = None, reasoning = None \<rparr>"

definition zoo :: mention where
  "zoo = \<lparr> name = ''Zoo'', place_type = ''park'', description = None, reasoning = None \<rparr>"

definition louvre_museum :: api_place where
  "louvre_museum =
     \<lparr> api_id = Some ''p1'', displayName = DisplayObject (Some ''Louvre Museum''),
       formattedAddress = Some ''Rue de Rivoli'', api_location = None, api_rating = None,
       api_userRatingCount = None, api_businessStatus = None, api_types = None,
       api_photos = None \<rparr>"


definition bar :: api_place where
  "bar =
     \<lparr> api_id = Some ''p3'', displayName = DisplayObject (Some ''Bar''),
       formattedAddress = Some ''1 Main Street'', api_location = None, api_rating = None,
       api_userRatingCount = None, api_businessStatus = None, api_types = None,
       api_photos = None \<rparr>"

text \<open>A batch of two mentions whose second search request fails, and an empty batch.\<close>

definition two_mentions :: route_response where
  "two_mentions = \<lparr> rr_places = Some [louvre, zoo], rr_city = ''Paris'' \<rparr>"

definition one_down :: "nat \<Rightarrow> search_outcome" where
  "one_down = outcomes_of [HttpOk (Some [louvre_museum]), FetchRejected ''network down'']"

definition no_mentions :: route_response where
  "no_mentions = \<lparr> rr_places = Some [], rr_city = ''Lisbon'' \<rparr>"

text \<open>Stops with an identifier, one without, and a route with the order \<open>[2, 0, 1]\<close>.\<close>

definition stop_a :: stop where
  "stop_a = \<lparr> stop_name = ''A'', address = Some ''1 Rua Augusta'', location = None, place_id = Some ''id-a'' \<rparr>"

definition stop_b :: stop where
  "stop_b = \<lparr> stop_name = ''B'', address = Some ''2 Rua Garrett'', location = None, place_id = Some ''id-b'' \<rparr>"

definition stop_c :: stop where
  "stop_c = \<lparr> stop_name = ''C'', address = Some ''3 Rua do Carmo'', location = None, place_id = Some ''id-c'' \<rparr>"

definition stop_d :: stop where
  "stop_d = \<lparr> stop_name = ''D'', address = Some ''4 Rua da Prata'', location = None, place_id = Some ''id-d'' \<rparr>"

definition stop_e :: stop where
  "stop_e = \<lparr> stop_name = ''E'', address = Some ''5 Rua do Ouro'', location = None, place_id = Some ''id-e'' \<rparr>"

definition stop_x :: stop where
  "stop_x = \<lparr> stop_name = ''X'', address = Some ''Address not found'', location = None, place_id = None \<rparr>"

definition route_201 :: route where
  "route_201 = \<lparr> optimizedIntermediateWaypointIndex = Some [2, 0, 1], duration = Some ''1830s'',
     distanceMeters = Some 2100 \<rparr>"







section \<open>Verification: strings and string similarity\<close>

text \<open>\<open>js_includes\<close> is the substring test.\<close>

lemma starts_with_iff: "starts_with s t \<longleftrightarrow> (\<exists>post. s = t @ post)"
  by (induction s t rule: starts_with.induct) auto

lemma js_includes_iff: "js_includes s t \<longleftrightarrow> (\<exists>pre post. s = pre @ t @ post)"
proof (induction s)
  case Nil
  then show ?case by auto
next
  case (Cons c s)
  show ?case
  proof
    assume "js_includes (c # s) t"
    then consider "starts_with (c # s) t" | "js_includes s t" by auto
    then show "\<exists>pre post. c # s = pre @ t @ post"
    proof cases
      case 1
      then obtain post where "c # s = t @ post" by (auto simp: starts_with_iff)
      then have "c # s = [] @ t @ post" by simp
      then show ?thesis by blast
    next
      case 2
      then obtain pre post where "s = pre @ t @ post" using Cons.IH by blast
      then have "c # s = (c # pre) @ t @ post" by simp
      then show ?thesis by blast
    qed
  next
    assume "\<exists>pre post. c # s = pre @ t @ post"
    then obtain pre post where eq: "c # s = pre @ t @ post" by blast
    show "js_includes (c # s) t"
    proof (cases pre)
      case Nil
      then have "starts_with (c # s) t" using eq by (auto simp: starts_with_iff)
      then show ?thesis by simp
    next
      case (Cons d pre')
      then have "s = pre' @ t @ post" using eq by simp
      then have "js_includes s t" using Cons.IH by blast
      then show ?thesis by simp
    qed
  qed
qed

lemma fold_upt_invariant:
  assumes "a \<le> b" and "P a s"
    and "\<And>k t. a \<le> k \<Longrightarrow> k < b \<Longrightarrow> P k t \<Longrightarrow> P (Suc k) (f k t)"
  shows "P b (fold f [a..<b] s)"
  using assms
proof (induction b)
  case 0
  then show ?case by simp
next
  case (Suc b)
  show ?case
  proof (cases "a = Suc b")
    case True
    with Suc.prems show ?thesis by simp
  next
    case False
    with Suc.prems have le: "a \<le> b" by simp
    have "P b (fold f [a..<b] s)"
      using le Suc.prems(2) Suc.prems(3) by (intro Suc.IH) auto
    then have "P (Suc b) (f b (fold f [a..<b] s))"
      using le Suc.prems(3) by simp
    with le show ?thesis by simp
  qed
qed

lemma edit_prefix_zero_right: "edit_prefix a b i 0 = i"
  by (cases i) simp_all

lemma edit_prefix_step_right: "edit_prefix a b i (Suc j) \<le> edit_prefix a b i j + 1"
  by (cases i) (simp_all add: edit_prefix_zero_right)

lemma edit_prefix_step_down: "edit_prefix a b (Suc i) j \<le> edit_prefix a b i j + 1"
  by (cases j) (simp_all add: edit_prefix_zero_right)

lemma edit_prefix_back_right: "edit_prefix a b i j \<le> edit_prefix a b i (Suc j) + 1"
proof (induction i arbitrary: j)
  case 0
  then show ?case by simp
next
  case (Suc i)
  have 1: "edit_prefix a b (Suc i) j \<le> edit_prefix a b i (Suc j) + 1 + 1"
    using edit_prefix_step_down [of a b i j] Suc.IH [of j] by linarith
  have 2: "edit_prefix a b (Suc i) j \<le> edit_prefix a b i j + (if a ! i = b ! j then 0 else 1) + 1"
    using edit_prefix_step_down [of a b i j] by simp
  show ?case using 1 2 by simp
qed

lemma edit_prefix_back_down: "edit_prefix a b i j \<le> edit_prefix a b (Suc i) j + 1"
proof (induction j arbitrary: i)
  case 0
  then show ?case by (simp add: edit_prefix_zero_right)
next
  case (Suc j)
  have 1: "edit_prefix a b i (Suc j) \<le> edit_prefix a b (Suc i) j + 1 + 1"
    using edit_prefix_step_right [of a b i j] Suc.IH [of i] by linarith
  have 2: "edit_prefix a b i (Suc j) \<le> edit_prefix a b i j + (if a ! i = b ! j then 0 else 1) + 1"
    using edit_prefix_step_right [of a b i j] by simp
  show ?case using 1 2 by simp
qed

lemma edit_prefix_equal_chars:
  "a ! i = b ! j \<Longrightarrow> edit_prefix a b (Suc i) (Suc j) = edit_prefix a b i j"
  using edit_prefix_back_right [of a b i j] edit_prefix_back_down [of a b i j]
  by simp

lemma edit_prefix_commute: "edit_prefix a b i j = edit_prefix b a j i"
proof (induction a b i j rule: edit_prefix.induct)
  case (1 a b j)
  then show ?case by (simp add: edit_prefix_zero_right)
next
  case (2 a b i)
  then show ?case by simp
next
  case (3 a b i j)
  then show ?case by (simp add: min.commute min.left_commute eq_commute)
qed

lemma init_rows_cell: "init_rows n2 (i, j) = (if j = 0 \<and> i \<le> n2 then Some i else None)"
proof -
  let ?P = "\<lambda>k (m::matrix). \<forall>i j. m (i, j) = (if j = 0 \<and> i < k then Some i else None)"
  have "?P (Suc n2) (fold (\<lambda>i m. m((i, 0) := Some i)) [0..<Suc n2] (\<lambda>_. None))"
    by (rule fold_upt_invariant) (auto simp: less_Suc_eq)
  then show ?thesis by (simp add: init_rows_def less_Suc_eq_le)
qed

lemma init_first_row_cell:
  "init_first_row n1 m0 (i, j) = (if i = 0 \<and> j \<le> n1 then Some j else m0 (i, j))"
proof -
  let ?P = "\<lambda>k (m::matrix). \<forall>i j. m (i, j) = (if i = 0 \<and> j < k then Some j else m0 (i, j))"
  have "?P (Suc n1) (fold (\<lambda>j m. m((0, j) := Some j)) [0..<Suc n1] m0)"
    by (rule fold_upt_invariant) (auto simp: less_Suc_eq)
  then show ?thesis by (simp add: init_first_row_def less_Suc_eq_le)
qed

lemma cells_done_init:
  "cells_done str1 str2 1 1 (init_first_row (length str1) (init_rows (length str2)))"
  by (auto simp: cells_done_def init_first_row_cell init_rows_cell edit_prefix_zero_right)

lemma fill_cell_done:
  assumes i: "1 \<le> i" "i \<le> length str2" and j: "1 \<le> j" "j \<le> length str1"
    and inv: "cells_done str1 str2 i j m"
  shows "cells_done str1 str2 i (Suc j) (fill_cell str1 str2 i j m)"
proof -
  obtain i0 j0 where ij: "i = Suc i0" "j = Suc j0"
    using i j by (cases i; cases j) auto
  let ?E = "edit_prefix str2 str1"
  have diag: "m (i0, j0) = Some (?E i0 j0)"
    and left: "m (i, j0) = Some (?E i j0)"
    and up: "m (i0, j) = Some (?E i0 j)"
    using inv i j ij by (auto simp: cells_done_def)
  have new: "fill_cell str1 str2 i j m (i, j) = Some (?E i j)"
  proof (cases "str2 ! i0 = str1 ! j0")
    case True
    then have "charAt str2 (i - 1) = charAt str1 (j - 1)"
      using i j ij by (simp add: charAt_def)
    then show ?thesis
      using diag ij edit_prefix_equal_chars [OF True]
      by (simp add: fill_cell_def del: edit_prefix.simps)
  next
    case False
    then have "charAt str2 (i - 1) \<noteq> charAt str1 (j - 1)"
      using i j ij by (simp add: charAt_def)
    then show ?thesis
      using False diag left up ij
      by (simp add: fill_cell_def min3_def plus_one_def min.commute min.left_commute)
  qed
  have old: "fill_cell str1 str2 i j m (i', j') = m (i', j')" if "(i', j') \<noteq> (i, j)" for i' j'
    using that by (auto simp: fill_cell_def)
  show ?thesis
    unfolding cells_done_def
  proof (intro allI impI)
    fix i' j'
    assume h: "i' \<le> length str2 \<and> j' \<le> length str1 \<and> (i' < i \<or> i' = i \<and> j' < Suc j \<or> j' = 0)"
    show "fill_cell str1 str2 i j m (i', j') = Some (?E i' j')"
    proof (cases "(i', j') = (i, j)")
      case True
      then show ?thesis using new by simp
    next
      case False
      then have "i' < i \<or> i' = i \<and> j' < j \<or> j' = 0" using h by auto
      then have "m (i', j') = Some (?E i' j')"
        using inv h by (auto simp: cells_done_def)
      then show ?thesis using old [OF False] by simp
    qed
  qed
qed

lemma fill_row_done:
  assumes i: "1 \<le> i" "i \<le> length str2" and inv: "cells_done str1 str2 i 1 m"
  shows "cells_done str1 str2 (Suc i) 1 (fill_row str1 str2 i m)"
proof -
  define r where "r = fill_row str1 str2 i m"
  have "cells_done str1 str2 i (Suc (length str1))
          (fold (fill_cell str1 str2 i) [1..<Suc (length str1)] m)"
    using inv i
    by (intro fold_upt_invariant [where P = "cells_done str1 str2 i"] fill_cell_done) auto
  then have "cells_done str1 str2 i (Suc (length str1)) r"
    by (simp only: r_def fill_row_def)
  then have "cells_done str1 str2 (Suc i) 1 r"
    unfolding cells_done_def
  proof (intro allI impI)
    fix i' j'
    assume a: "\<forall>i' j'. i' \<le> length str2 \<and> j' \<le> length str1 \<and>
                 (i' < i \<or> i' = i \<and> j' < Suc (length str1) \<or> j' = 0) \<longrightarrow>
                 r (i', j') = Some (edit_prefix str2 str1 i' j')"
      and b: "i' \<le> length str2 \<and> j' \<le> length str1 \<and>
                 (i' < Suc i \<or> i' = Suc i \<and> j' < 1 \<or> j' = 0)"
    from b have "i' < i \<or> i' = i \<and> j' < Suc (length str1) \<or> j' = 0" by auto
    with a b show "r (i', j') = Some (edit_prefix str2 str1 i' j')" by blast
  qed
  then show ?thesis by (simp only: r_def)
qed

lemma fill_matrix_done:
  "cells_done str1 str2 (Suc (length str2)) 1 (fill_matrix str1 str2)"
  unfolding fill_matrix_def
  by (intro fold_upt_invariant [where P = "\<lambda>i. cells_done str1 str2 i 1"]
        fill_row_done cells_done_init) auto

lemma fill_matrix_distance:
  "fill_matrix str1 str2 (length str2, length str1) = Some (editDistance str1 str2)"
  using fill_matrix_done [of str1 str2]
  by (simp add: cells_done_def editDistance_def edit_prefix_commute [of str1 str2])

text \<open>The distance of a string to itself is 0, and the distance is symmetric.\<close>

lemma edit_prefix_same: "edit_prefix a a i i = 0"
  by (induction i) simp_all

lemma editDistance_same: "editDistance a a = 0"
  by (simp add: editDistance_def edit_prefix_same)

lemma editDistance_commute: "editDistance a b = editDistance b a"
  by (simp add: editDistance_def edit_prefix_commute [of a b])

text \<open>
  Claim C6. \<open>calculateStringSimilarity a b\<close> is 1 when the strings are equal, 0 when
  they differ and one of them is empty, and otherwise 1 minus the unit-cost edit distance
  divided by the longer length. The loops never read a cell they have not written, so the
  result is a finite number.
\<close>

theorem calculateStringSimilarity_spec:
  "calculateStringSimilarity a b =
     (if a = b then Num 1
      else if a = [] \<or> b = [] then Num 0
      else Num (1 - of_nat (editDistance a b) / of_nat (max (length a) (length b))))"
  by (simp add: calculateStringSimilarity_def fill_matrix_distance of_count_def js_sub_def Let_def)

section \<open>Verification: the confidence scorer\<close>

lemma edit_prefix_le_max: "edit_prefix a b i j \<le> max i j"
proof (induction a b i j rule: edit_prefix.induct)
  case (3 a b i j)
  have "edit_prefix a b (Suc i) (Suc j) \<le> edit_prefix a b i j + (if a ! i = b ! j then 0 else 1)"
    by simp
  also have "\<dots> \<le> max i j + 1" using "3.IH"(3) by simp
  finally show ?case by simp
qed simp_all

lemma editDistance_le_max: "editDistance a b \<le> max (length a) (length b)"
  by (simp add: editDistance_def edit_prefix_le_max)

lemma similarity_value: "calculateStringSimilarity a b = Num (similarity a b)"
  by (simp add: calculateStringSimilarity_def fill_matrix_distance of_count_def js_sub_def
      Let_def similarity_def)

lemma ratio_unit:
  assumes "k \<le> n"
  shows "0 \<le> (of_nat k :: rat) / of_nat n \<and> (of_nat k :: rat) / of_nat n \<le> 1"
proof (cases "n = 0")
  case True
  then show ?thesis by simp
next
  case False
  have "(of_nat k :: rat) \<le> of_nat n" using assms by (simp only: of_nat_le_iff)
  then show ?thesis using False by (simp add: divide_le_eq_1)
qed

lemma similarity_commute: "calculateStringSimilarity a b = calculateStringSimilarity b a"
  by (auto simp: similarity_value similarity_def editDistance_commute [of a b] max.commute)

lemma similarity_range: "0 \<le> similarity a b \<and> similarity a b \<le> 1"
  using ratio_unit [OF editDistance_le_max [of a b]]
  by (simp add: similarity_def)

lemma word_matches_fold_le:
  "fold (\<lambda>w n. if P w then n + 1 else n) ws k \<le> k + length ws"
proof (induction ws arbitrary: k)
  case Nil
  then show ?case by simp
next
  case (Cons w ws)
  show ?case using Cons.IH [of "k + 1"] Cons.IH [of k] by simp
qed

lemma word_matches_le: "word_matches nameWords apiWords \<le> length nameWords"
  unfolding word_matches_def
  using word_matches_fold_le [of _ nameWords 0] by simp


lemma word_bonus_range: "0 \<le> word_bonus a b \<and> word_bonus a b \<le> 15 / 100"
proof -
  let ?q = "(of_nat (word_matches (name_tokens a) (name_tokens b)) :: rat)
              / of_nat (length (name_tokens a))"
  have q: "0 \<le> ?q \<and> ?q \<le> 1"
    by (rule ratio_unit [OF word_matches_le])
  then have "0 \<le> ?q * (15 / 100)" "?q * (15 / 100) \<le> 15 / 100"
    by simp_all
  then show ?thesis by (simp add: word_bonus_def)
qed

lemma name_block_value: "name_block (Num c) a b = Num (c + name_score a b)"
  by (simp add: name_block_def Let_def similarity_value word_bonus_def of_count_def name_score_def)

lemma name_score_range: "0 \<le> name_score a b \<and> name_score a b \<le> 75 / 100"
proof -
  have "0 \<le> similarity a b * (6 / 10)" "similarity a b * (6 / 10) \<le> 6 / 10"
    using similarity_range [of a b] by simp_all
  then show ?thesis
    using word_bonus_range [of a b] by (simp add: name_score_def)
qed

lemma address_block_value: "address_block (Num c) addr cityName = Num (c + address_score addr cityName)"
  by (simp add: address_block_def address_score_def Let_def)

lemma status_block_value: "status_block (Num c) status = Num (c + status_score status)"
  by (simp add: status_block_def status_score_def)

lemma quality_block_value:
  "quality_block (Num c) rating count = Num (c + quality_score rating count)"
  by (auto simp: quality_block_def quality_score_def Let_def split: option.splits)

lemma other_signals_value:
  "other_signals (Num c) apiPlace cityName = Num (c + other_score apiPlace cityName)"
  by (simp add: other_signals_def other_score_def address_block_value status_block_value
      quality_block_value add.assoc)

lemma address_score_range: "0 \<le> address_score addr cityName \<and> address_score addr cityName \<le> 3 / 10"
  by (simp add: address_score_def Let_def)

lemma status_score_range: "0 \<le> status_score st \<and> status_score st \<le> 5 / 100"
  by (simp add: status_score_def)

lemma quality_score_range: "0 \<le> quality_score r n \<and> quality_score r n \<le> 5 / 100"
  by (auto simp: quality_score_def split: option.splits)

lemma other_score_range: "0 \<le> other_score c cityName \<and> other_score c cityName \<le> 4 / 10"
  using address_score_range [of "formattedAddress c" cityName]
    status_score_range [of "api_businessStatus c"]
    quality_score_range [of "api_rating c" "api_userRatingCount c"]
  by (simp add: other_score_def)

lemma confidence_value:
  "calculateMatchConfidence p c cityName =
     (case apiNameOf (displayName c) of
        Inl e \<Rightarrow> Inl e
      | Inr b \<Rightarrow> Inr (Num (min (name_score (toLowerCase (name p)) b + other_score c cityName) 1)))"
  by (simp add: calculateMatchConfidence_def Let_def name_block_value other_signals_value
      min_def split: sum.splits)

lemma confidence_cases:
  obtains (throws) e where "calculateMatchConfidence p c cityName = Inl e"
  | (scored) r where "calculateMatchConfidence p c cityName = Inr (Num r)" "0 \<le> r" "r \<le> 1"
proof (cases "apiNameOf (displayName c)")
  case (Inl e)
  then show ?thesis using throws by (simp add: confidence_value)
next
  case (Inr b)
  have "0 \<le> name_score (toLowerCase (name p)) b + other_score c cityName"
    using name_score_range [of "toLowerCase (name p)" b] other_score_range [of c cityName]
    by simp
  then show ?thesis using Inr scored by (simp add: confidence_value)
qed

text \<open>
  Claim C2. Unless reading the candidate's display name throws, the scorer returns a
  finite number between 0 and 1: the sum of the name, address, status and quality
  signals, none of them negative, capped at 1.
\<close>

theorem confidence_in_unit_interval:
  "(\<exists>e. apiNameOf (displayName c) = Inl e \<and> calculateMatchConfidence p c cityName = Inl e) \<or>
   (\<exists>b r. apiNameOf (displayName c) = Inr b \<and>
      r = name_score (toLowerCase (name p)) b
          + address_score (formattedAddress c) cityName
          + status_score (api_businessStatus c)
          + quality_score (api_rating c) (api_userRatingCount c) \<and>
      0 \<le> name_score (toLowerCase (name p)) b \<and>
      0 \<le> address_score (formattedAddress c) cityName \<and>
      0 \<le> status_score (api_businessStatus c) \<and>
      0 \<le> quality_score (api_rating c) (api_userRatingCount c) \<and>
      calculateMatchConfidence p c cityName = Inr (Num (min r 1)) \<and>
      0 \<le> min r 1 \<and> min r 1 \<le> 1)"
proof (cases "apiNameOf (displayName c)")
  case (Inl e)
  then show ?thesis by (simp add: confidence_value)
next
  case (Inr b)
  note ranges =
    name_score_range [of "toLowerCase (name p)" b]
    address_score_range [of "formattedAddress c" cityName]
    status_score_range [of "api_businessStatus c"]
    quality_score_range [of "api_rating c" "api_userRatingCount c"]
  show ?thesis
    using Inr ranges by (simp add: confidence_value other_score_def add.assoc)
qed

text \<open>
  Claim C1, as the code has it. The word bonus is left out only on the exact-match
  path. On every other path, the containment path included, the scorer adds
  \<open>wordMatches / nameWords.length * 0.15\<close> (nothing when the mention has no word of
  more than two characters).
\<close>

theorem token_bonus_skipped_only_on_exact_match:
  "calculateMatchConfidence p c cityName =
     (case apiNameOf (displayName c) of
        Inl e \<Rightarrow> Inl e
      | Inr b \<Rightarrow>
          (let a = toLowerCase (name p)
           in Inr (js_min
                (other_signals
                   (Num (if a = b then 6 / 10
                         else if js_includes a b \<or> js_includes b a then 5 / 10 + word_bonus a b
                         else similarity a b * (6 / 10) + word_bonus a b))
                   c cityName)
                (Num 1))))"
  by (simp add: calculateMatchConfidence_def Let_def name_block_value name_score_def
      split: sum.splits)

text \<open>
  Claim C1 as stated fails on the containment path: for the mention ``Louvre'' and the
  candidate ``Louvre Museum'' the names differ, the candidate's name contains the
  mention's, and the name block yields 0.65, which is the 0.5 of containment plus the
  full word bonus of 0.15.
\<close>

theorem token_bonus_counterexample:
  "toLowerCase (name louvre) \<noteq> toLowerCase ''Louvre Museum'' \<and>
   js_includes (toLowerCase ''Louvre Museum'') (toLowerCase (name louvre)) \<and>
   name_block (Num 0) (toLowerCase (name louvre)) (toLowerCase ''Louvre Museum'') = Num (65 / 100) \<and>
   calculateMatchConfidence louvre louvre_museum ''Paris'' = Inr (Num (65 / 100))"
  by code_simp








section \<open>Verification: resolving and verifying mentions\<close>

lemma best_match_loop_throws:
  "list_ex (scoring_throws p cityName) ps \<Longrightarrow> \<exists>e. best_match_loop p cityName ps b0 = Inl e"
proof (induction ps arbitrary: b0)
  case Nil
  then show ?case by simp
next
  case (Cons c ps)
  show ?case
  proof (cases rule: confidence_cases [of p c cityName])
    case (throws e)
    then show ?thesis by simp
  next
    case (scored r)
    then have "\<not> scoring_throws p cityName c"
      by (simp add: scoring_throws_def)
    then have "list_ex (scoring_throws p cityName) ps"
      using Cons.prems by simp
    from Cons.IH [OF this] show ?thesis using scored by simp
  qed
qed

lemma best_match_loop_place:
  assumes "list_all (\<lambda>c. \<not> scoring_throws p cityName c) ps" and "bm_confidence b0 = Num x"
  shows "\<exists>b. best_match_loop p cityName ps b0 = Inr b \<and>
             (bm_place b \<noteq> None \<longleftrightarrow>
                bm_place b0 \<noteq> None \<or>
                list_ex (\<lambda>c. case calculateMatchConfidence p c cityName of
                               Inl e \<Rightarrow> False | Inr s \<Rightarrow> js_gt s (Num x)) ps)"
  using assms
proof (induction ps arbitrary: b0 x)
  case Nil
  then show ?case by simp
next
  case (Cons c ps)
  show ?case
  proof (cases rule: confidence_cases [of p c cityName])
    case (throws e)
    then have "scoring_throws p cityName c"
      by (simp add: scoring_throws_def)
    then show ?thesis using Cons.prems by simp
  next
    case (scored r)
    have rest: "list_all (\<lambda>c. \<not> scoring_throws p cityName c) ps"
      using Cons.prems by simp
    show ?thesis
    proof (cases "x < r")
      case True
      let ?b1 = "\<lparr> bm_place = Some (place_of c), bm_confidence = Num r \<rparr>"
      have "\<exists>b. best_match_loop p cityName ps ?b1 = Inr b \<and> bm_place b \<noteq> None"
        using Cons.IH [OF rest, of ?b1 r] by simp
      then show ?thesis using scored True Cons.prems(2) by simp
    next
      case False
      have "list_ex (\<lambda>c. case calculateMatchConfidence p c cityName of
                               Inl e \<Rightarrow> False | Inr s \<Rightarrow> js_gt s (Num x)) (c # ps)
            = list_ex (\<lambda>c. case calculateMatchConfidence p c cityName of
                               Inl e \<Rightarrow> False | Inr s \<Rightarrow> js_gt s (Num x)) ps"
        using scored False by simp
      then show ?thesis
        using Cons.IH [OF rest Cons.prems(2)] scored False Cons.prems(2) by simp
    qed
  qed
qed

lemma findBestMatch_place:
  "(\<exists>b. findBestMatch p ps cityName = Inr b \<and> bm_place b \<noteq> None) \<longleftrightarrow>
     list_all (\<lambda>c. \<not> scoring_throws p cityName c) ps \<and> list_ex (scores_above_zero p cityName) ps"
proof (cases "list_all (\<lambda>c. \<not> scoring_throws p cityName c) ps")
  case True
  show ?thesis
    using best_match_loop_place [OF True, of "\<lparr> bm_place = None, bm_confidence = Num 0 \<rparr>" 0] True
    by (auto simp: findBestMatch_def scores_above_zero_def [abs_def])
next
  case False
  then have "list_ex (scoring_throws p cityName) ps"
    by (simp add: list_all_iff list_ex_iff)
  from best_match_loop_throws [OF this, of "\<lparr> bm_place = None, bm_confidence = Num 0 \<rparr>"]
  show ?thesis using False
    by (auto simp: findBestMatch_def)
qed

lemma failed_verification_place [simp]: "verifiedPlace (failed_verification p msg) = None"
  by (simp add: failed_verification_def)

text \<open>
  Claim C3, as the code has it. The result of \<open>verifyPlace\<close> carries a verified place
  exactly when the search returned candidates, scoring threw on none of them, and at
  least one of them scored strictly above 0: the loop of \<open>findBestMatch\<close> starts from
  confidence 0 with no place and replaces it only on a strictly greater score. In
  particular a verified place implies a non-empty candidate list, and an empty or
  failed search gives none.
\<close>

theorem resolved_candidate_present_iff:
  "verifiedPlace (verifyPlace p cityName outcome) \<noteq> None \<longleftrightarrow>
     (\<exists>ps. outcome = HttpOk (Some ps) \<and>
        list_all (\<lambda>c. \<not> scoring_throws p cityName c) ps \<and>
        list_ex (scores_above_zero p cityName) ps)"
proof (cases outcome)
  case (HttpOk data_places)
  show ?thesis
  proof (cases data_places)
    case None
    with HttpOk show ?thesis by (simp add: verifyPlace_def)
  next
    case (Some ps)
    show ?thesis
    proof (cases ps)
      case Nil
      with HttpOk Some show ?thesis by (simp add: verifyPlace_def)
    next
      case (Cons c cs)
      have A: "verifiedPlace (verifyPlace p cityName outcome) \<noteq> None \<longleftrightarrow>
              (\<exists>b. findBestMatch p ps cityName = Inr b \<and> bm_place b \<noteq> None)"
        using HttpOk Some Cons by (auto simp: verifyPlace_def split: sum.splits)
      have C: "(\<exists>qs. outcome = HttpOk (Some qs) \<and>
                  list_all (\<lambda>c. \<not> scoring_throws p cityName c) qs \<and>
                  list_ex (scores_above_zero p cityName) qs) \<longleftrightarrow>
               list_all (\<lambda>c. \<not> scoring_throws p cityName c) ps \<and>
               list_ex (scores_above_zero p cityName) ps"
        using HttpOk Some by simp
      show ?thesis
        using A C findBestMatch_place [of p ps cityName] by blast
    qed
  qed
qed (simp_all add: verifyPlace_def)

text \<open>
  Claim C3 as stated fails when every candidate scores 0: for the mention ``Zoo'' in
  Paris the search returns the one candidate ``Bar'' at ``1 Main Street'', whose score
  is 0, and the result has no verified place (and no error).
\<close>

theorem resolved_candidate_counterexample:
  "verifiedPlace (verifyPlace zoo ''Paris'' (HttpOk (Some [bar]))) = None \<and>
   error (verifyPlace zoo ''Paris'' (HttpOk (Some [bar]))) = None \<and>
   confidence (verifyPlace zoo ''Paris'' (HttpOk (Some [bar]))) = Num 0"
  by code_simp

lemma verification_results_nth:
  assumes "i < length ps"
  shows "map (\<lambda>(i, place). verifyPlace place cityName (fetch i)) (enumerate 0 ps) ! i
         = verifyPlace (ps ! i) cityName (fetch i)"
  using assms by (simp add: nth_enumerate_eq)

lemma failed_search_result:
  assumes "search_failed outcome"
  shows "\<not> verified (verifyPlace p cityName outcome) \<and>
         confidence (verifyPlace p cityName outcome) = Num 0 \<and>
         error (verifyPlace p cityName outcome) \<noteq> None"
proof (cases outcome)
  case (HttpOk data_places)
  then show ?thesis
    using assms
    by (cases data_places; cases "the data_places")
       (simp_all add: verifyPlace_def failed_verification_def)
qed (simp_all add: verifyPlace_def failed_verification_def)

lemma unverified_count:
  "unverifiedPlaces (summarize rs) = length (filter (\<lambda>r. \<not> verified r) rs)"
  using sum_length_filter_compl [of verified rs]
  by (simp add: summarize_def Let_def)

lemma count_failures_le:
  assumes "\<And>i. i < length rs \<Longrightarrow> F i \<Longrightarrow> \<not> verified (rs ! i)"
  shows "card {i. i < length rs \<and> F i} \<le> length (filter (\<lambda>r. \<not> verified r) rs)"
proof -
  have "{i. i < length rs \<and> F i} \<subseteq> {i. i < length rs \<and> \<not> verified (rs ! i)}"
    using assms by auto
  then have "card {i. i < length rs \<and> F i} \<le> card {i. i < length rs \<and> \<not> verified (rs ! i)}"
    by (intro card_mono) auto
  then show ?thesis by (simp add: length_filter_conv_card)
qed

text \<open>
  Claim C4. A batch with a mention list always succeeds. The result at each index is
  the verification of that mention with the outcome of its own search request, whatever
  the other requests came to. Where the search failed (no response, a response that is
  not \<open>ok\<close>, an unreadable body, or no candidate) the result is unverified with
  confidence 0 and an error text, and the summary counts at least as many unverified
  places as there are failed searches.
\<close>

theorem batch_survives_search_failures:
  assumes "rr_places r = Some ps"
  shows "\<exists>results sm enh.
           verifyAllPlaces r fetch = BatchSuccess results sm enh \<and>
           length results = length ps \<and>
           (\<forall>i < length ps. results ! i = verifyPlace (ps ! i) (rr_city r) (fetch i)) \<and>
           (\<forall>i < length ps. search_failed (fetch i) \<longrightarrow>
              \<not> verified (results ! i) \<and> confidence (results ! i) = Num 0 \<and>
              error (results ! i) \<noteq> None) \<and>
           sm = summarize results \<and>
           card {i. i < length ps \<and> search_failed (fetch i)} \<le> unverifiedPlaces sm"
proof -
  define results where
    "results = map (\<lambda>(i, place). verifyPlace place (rr_city r) (fetch i)) (enumerate 0 ps)"
  have len: "length results = length ps"
    by (simp add: results_def)
  have nth: "results ! i = verifyPlace (ps ! i) (rr_city r) (fetch i)" if "i < length ps" for i
    using that unfolding results_def by (rule verification_results_nth)
  have failed: "\<not> verified (results ! i) \<and> confidence (results ! i) = Num 0 \<and>
                error (results ! i) \<noteq> None"
    if "i < length ps" "search_failed (fetch i)" for i
    using that failed_search_result [of "fetch i" "ps ! i" "rr_city r"] by (simp add: nth)
  have "card {i. i < length results \<and> search_failed (fetch i)}
          \<le> length (filter (\<lambda>r. \<not> verified r) results)"
    by (rule count_failures_le) (use failed len in auto)
  then have count: "card {i. i < length ps \<and> search_failed (fetch i)}
          \<le> unverifiedPlaces (summarize results)"
    by (simp add: len unverified_count)
  have "verifyAllPlaces r fetch = BatchSuccess results (summarize results) (map enhance results)"
    using assms by (simp add: verifyAllPlaces_def results_def Let_def)
  then show ?thesis
    using len nth failed count by blast
qed

text \<open>
  An instance: of two mentions the second loses its search request to a network error;
  the first is verified all the same, and the summary counts one unverified place.
\<close>

theorem batch_survives_search_failures_witness:
  "rr_places two_mentions = Some [louvre, zoo] \<and>
   search_failed (one_down 1) \<and>
   (\<exists>results sm enh.
      verifyAllPlaces two_mentions one_down = BatchSuccess results sm enh \<and>
      \<not> verified (results ! 1) \<and> confidence (results ! 1) = Num 0 \<and>
      error (results ! 1) = Some ''network down'' \<and>
      verified (results ! 0) \<and>
      1 \<le> unverifiedPlaces sm)"
proof -
  have h: "rr_places two_mentions = Some [louvre, zoo]"
    by (simp add: two_mentions_def)
  have f: "search_failed (one_down 1)"
    by (simp add: one_down_def outcomes_of_def)
  have n: "\<not> search_failed (one_down 0)"
    by (simp add: one_down_def outcomes_of_def)
  have c: "card {i. i < length [louvre, zoo] \<and> search_failed (one_down i)} = 1"
  proof -
    have "{i. i < length [louvre, zoo] \<and> search_failed (one_down i)} = {1}"
      using f n by (auto simp: less_Suc_eq)
    then show ?thesis by simp
  qed
  have v0: "verified (verifyPlace louvre ''Paris'' (one_down 0))"
    by code_simp
  have e1: "error (verifyPlace zoo ''Paris'' (one_down 1)) = Some ''network down''"
    by code_simp
  obtain results sm enh where
    "verifyAllPlaces two_mentions one_down = BatchSuccess results sm enh"
    "\<forall>i < length [louvre, zoo]. results ! i = verifyPlace ([louvre, zoo] ! i) (rr_city two_mentions) (one_down i)"
    "\<forall>i < length [louvre, zoo]. search_failed (one_down i) \<longrightarrow>
              \<not> verified (results ! i) \<and> confidence (results ! i) = Num 0 \<and>
              error (results ! i) \<noteq> None"
    "card {i. i < length [louvre, zoo] \<and> search_failed (one_down i)} \<le> unverifiedPlaces sm"
    using batch_survives_search_failures [OF h, of one_down] by blast
  then show ?thesis
    using h f c v0 e1 by (auto simp: two_mentions_def)
qed

text \<open>
  Claim C5, as the code has it. The rate is \<open>verifiedCount / totalCount * 100\<close> with
  no guard on the division: for a batch without mentions the code divides 0 by 0 and the
  rate is \<open>NaN\<close>; no exception is raised, and for a batch with at least one mention
  the rate is the finite quotient.
\<close>

theorem verification_rate_unguarded:
  assumes "rr_places r = Some ps"
  shows "\<exists>results sm enh.
           verifyAllPlaces r fetch = BatchSuccess results sm enh \<and>
           totalPlaces sm = length ps \<and>
           verifiedPlaces sm = length (filter verified results) \<and>
           verificationRate sm =
             (if ps = [] then NaN
              else Num (of_nat (verifiedPlaces sm) / of_nat (totalPlaces sm) * 100))"
  using assms
  by (cases ps) (simp_all add: verifyAllPlaces_def Let_def summarize_def of_count_def)

text \<open>
  Claim C5 as stated fails on the empty batch: the summary's rate is \<open>NaN\<close>.
\<close>

theorem verification_rate_counterexample:
  "verifyAllPlaces no_mentions (outcomes_of []) =
     BatchSuccess []
       \<lparr> totalPlaces = 0, verifiedPlaces = 0, verificationRate = NaN, unverifiedPlaces = 0 \<rparr> []"
  by code_simp

text \<open>An instance: one of two mentions verified gives the rate 50.\<close>

theorem verification_rate_unguarded_witness:
  "rr_places two_mentions = Some [louvre, zoo] \<and>
   (\<exists>results sm enh.
      verifyAllPlaces two_mentions one_down = BatchSuccess results sm enh \<and>
      totalPlaces sm = 2 \<and> verificationRate sm = Num 50)"
proof -
  have h: "rr_places two_mentions = Some [louvre, zoo]"
    by (simp add: two_mentions_def)
  have v: "verifiedPlaces (summarize (map (\<lambda>(i, place). verifyPlace place ''Paris'' (one_down i)) (enumerate 0 [louvre, zoo]))) = 1"
    by code_simp
  show ?thesis
    using verification_rate_unguarded [OF h, of one_down] h v
    by (auto simp: verifyAllPlaces_def two_mentions_def Let_def)
qed

section \<open>Verification: ordering the stops and the maps link\<close>

lemma permutation_in_range:
  assumes "is_permutation p k" and "i \<in> set p"
  shows "0 \<le> i \<and> nat i < k"
proof -
  have "set p = set (map int [0..<k])"
    using assms(1) unfolding is_permutation_def by (metis set_sort)
  then show ?thesis using assms(2) by auto
qed

lemma js_nth_in_range: "0 \<le> i \<Longrightarrow> nat i < length xs \<Longrightarrow> js_nth xs i = Some (xs ! nat i)"
  by (simp add: js_nth_def)

lemma map_js_nth_permutation:
  assumes "is_permutation p (length xs)"
  shows "map (js_nth xs) p = map Some (map (\<lambda>i. xs ! nat i) p)"
  using permutation_in_range [OF assms] by (simp add: js_nth_in_range)

text \<open>
  Claim C7. When at least three stops carry an identifier and the routing service
  answers with a route whose order \<open>p\<close> is a permutation of the indices of the
  intermediates, the result is optimized and lists the first identified stop, the
  intermediates in the order \<open>p\<close>, and the last identified stop. Origin, intermediates
  and destination are taken from the stops that carry an identifier.
\<close>

theorem permuted_intermediates:
  assumes "3 \<le> length (filter has_place_id places)"
    and "outcome = RoutesOk (Some (route # others))"
    and "optimizedIntermediateWaypointIndex route = Some p"
    and "is_permutation p (length (slice_inner (filter has_place_id places)))"
  shows "opt_success (optimizeRouteOrder places travelMode outcome) \<and>
         opt_optimized (optimizeRouteOrder places travelMode outcome) \<and>
         opt_places (optimizeRouteOrder places travelMode outcome) =
           map Some
             ([hd (filter has_place_id places)]
              @ map (\<lambda>i. slice_inner (filter has_place_id places) ! nat i) p
              @ [last (filter has_place_id places)])"
proof -
  let ?w = "filter has_place_id places"
  have "length ?w \<le> length places" by simp
  then have len: "\<not> length places < 2" "\<not> length ?w < 2" "length ?w \<noteq> 2"
    using assms(1) by linarith+
  have ne: "?w \<noteq> []" using assms(1) by auto
  have ends: "?w ! 0 = hd ?w" "?w ! (length ?w - 1) = last ?w"
    using ne by (simp_all add: hd_conv_nth last_conv_nth)
  show ?thesis
    using len ends assms(2,3) map_js_nth_permutation [OF assms(4)]
    by (simp add: optimizeRouteOrder_def Let_def)
qed

text \<open>An instance: the order \<open>[2, 0, 1]\<close> over the three intermediates B, C, D.\<close>

theorem permuted_intermediates_witness:
  "3 \<le> length (filter has_place_id [stop_a, stop_b, stop_c, stop_d, stop_e]) \<and>
   is_permutation [2, 0, 1] (length (slice_inner (filter has_place_id [stop_a, stop_b, stop_c, stop_d, stop_e]))) \<and>
   opt_optimized (optimizeRouteOrder [stop_a, stop_b, stop_c, stop_d, stop_e] ''WALK''
                    (RoutesOk (Some [route_201]))) \<and>
   opt_places (optimizeRouteOrder [stop_a, stop_b, stop_c, stop_d, stop_e] ''WALK''
                 (RoutesOk (Some [route_201])))
     = [Some stop_a, Some stop_d, Some stop_b, Some stop_c, Some stop_e]"
proof -
  have w: "filter has_place_id [stop_a, stop_b, stop_c, stop_d, stop_e]
           = [stop_a, stop_b, stop_c, stop_d, stop_e]"
    by (simp add: has_place_id_def stop_a_def stop_b_def stop_c_def stop_d_def stop_e_def)
  have 1: "3 \<le> length (filter has_place_id [stop_a, stop_b, stop_c, stop_d, stop_e])"
    unfolding w by simp
  have 3: "optimizedIntermediateWaypointIndex route_201 = Some [2, 0, 1]"
    by (simp add: route_201_def)
  have 4: "is_permutation [2, 0, 1]
             (length (slice_inner (filter has_place_id [stop_a, stop_b, stop_c, stop_d, stop_e])))"
    unfolding w by (simp add: is_permutation_def slice_inner_def upt_rec)
  note th = permuted_intermediates [OF 1 refl 3 4, of "''WALK''" "[]"]
  have 5: "opt_optimized (optimizeRouteOrder [stop_a, stop_b, stop_c, stop_d, stop_e] ''WALK''
                    (RoutesOk (Some [route_201])))"
    using th by blast
  have 6: "opt_places (optimizeRouteOrder [stop_a, stop_b, stop_c, stop_d, stop_e] ''WALK''
                 (RoutesOk (Some [route_201])))
     = [Some stop_a, Some stop_d, Some stop_b, Some stop_c, Some stop_e]"
    using th unfolding w by (simp add: slice_inner_def)
  from 1 4 5 6 show ?thesis by blast
qed

text \<open>
  Claim C8, as the code has it. With fewer than three identified stops the result is
  never optimized and keeps the input order. It is the input list itself when fewer than
  two stops carry an identifier, and the two identified stops when exactly two do: the
  input list again if every stop carries an identifier, a shorter list otherwise.
\<close>

theorem few_identified_stops:
  assumes "length (filter has_place_id places) < 3"
  shows "opt_success (optimizeRouteOrder places travelMode outcome) \<and>
         \<not> opt_optimized (optimizeRouteOrder places travelMode outcome) \<and>
         opt_places (optimizeRouteOrder places travelMode outcome) =
           map Some (if length (filter has_place_id places) = 2
                     then filter has_place_id places else places) \<and>
         (list_all has_place_id places \<longrightarrow>
            opt_places (optimizeRouteOrder places travelMode outcome) = map Some places)"
proof -
  let ?w = "filter has_place_id places"
  have le: "length ?w \<le> length places" by simp
  have all: "?w = places" if "list_all has_place_id places"
    using that by (simp add: list_all_iff)
  show ?thesis
  proof (cases "length places < 2")
    case True
    then have "length ?w \<noteq> 2" using le by linarith
    then show ?thesis using True by (simp add: optimizeRouteOrder_def caught_def)
  next
    case False
    then show ?thesis
      using assms all
      by (auto simp: optimizeRouteOrder_def Let_def)
  qed
qed

text \<open>
  Claim C8 as stated fails when exactly two of more stops carry an identifier: of the
  stops A, X, C, where X has none, only A and C are returned.
\<close>

theorem few_identified_stops_counterexample:
  "length (filter has_place_id [stop_a, stop_x, stop_c]) < 3 \<and>
   opt_places (optimizeRouteOrder [stop_a, stop_x, stop_c] ''WALK'' (RoutesOk None))
     = [Some stop_a, Some stop_c] \<and>
   opt_places (optimizeRouteOrder [stop_a, stop_x, stop_c] ''WALK'' (RoutesOk None))
     \<noteq> map Some [stop_a, stop_x, stop_c]"
  by (simp add: optimizeRouteOrder_def has_place_id_def stop_a_def stop_x_def stop_c_def)

text \<open>An instance: two stops, one of them without identifier, come back as they were.\<close>

theorem few_identified_stops_witness:
  "length (filter has_place_id [stop_a, stop_x]) < 3 \<and>
   \<not> opt_optimized (optimizeRouteOrder [stop_a, stop_x] ''WALK'' (RoutesOk None)) \<and>
   opt_places (optimizeRouteOrder [stop_a, stop_x] ''WALK'' (RoutesOk None))
     = [Some stop_a, Some stop_x]"
proof -
  have 1: "length (filter has_place_id [stop_a, stop_x]) < 3" by simp
  have 2: "length (filter has_place_id [stop_a, stop_x]) \<noteq> 2"
    by (simp add: has_place_id_def stop_x_def)
  show ?thesis
    using few_identified_stops [OF 1, of "''WALK''" "RoutesOk None"] 1 2 by simp
qed










end
